theory Spec2Isabelle
  imports Main
begin

section \<open>The CommonJS module system for Google Apps Script\<close>

text \<open>
  A shallow embedding of the module registry of \<^verbatim>\<open>CommonJS.js\<close>: the three stores
  \<^verbatim>\<open>modules\<close>, \<^verbatim>\<open>moduleFactories\<close> and \<^verbatim>\<open>loadingModules\<close>, the functions
  \<^verbatim>\<open>__detectModuleName__\<close>, \<^verbatim>\<open>__defineModule__\<close>, \<^verbatim>\<open>require\<close> and
  \<^verbatim>\<open>__getCurrentModule__\<close>. Isabelle identifiers cannot start with an underscore, so the
  double underscores of the source names are dropped.

  Strings are lists of code units below 256. Objects live in a heap and are referred to by
  address, so that "the same object" is equality of addresses. A thrown exception is the
  left injection of a sum; a \<^verbatim>\<open>Logger.log\<close> or \<^verbatim>\<open>console.warn\<close> line is an event
  in the list a function returns beside its result.
\<close>

subsection \<open>Strings\<close>

definition startsWith :: "string \<Rightarrow> string \<Rightarrow> bool" where
  "startsWith s p = (take (length p) s = p)"

definition endsWith :: "string \<Rightarrow> string \<Rightarrow> bool" where
  "endsWith s p = (length p \<le> length s \<and> drop (length s - length p) s = p)"

fun js_includes :: "string \<Rightarrow> string \<Rightarrow> bool" where
  "js_includes [] p = (p = [])"
| "js_includes (c # s) p = (startsWith (c # s) p \<or> js_includes s p)"

fun join :: "string \<Rightarrow> string list \<Rightarrow> string" where
  "join sep [] = []"
| "join sep [x] = x"
| "join sep (x # y # ys) = x @ sep @ join sep (y # ys)"

text \<open>\<^verbatim>\<open>s.split(c)\<close> for a one-character separator: never empty, \<^verbatim>\<open>''.split(c)\<close> is \<^verbatim>\<open>['']\<close>.\<close>

fun split :: "char \<Rightarrow> string \<Rightarrow> string list" where
  "split sep [] = [[]]"
| "split sep (c # s) =
     (if c = sep then [] # split sep s
      else (case split sep s of [] \<Rightarrow> [[c]] | w # ws \<Rightarrow> (c # w) # ws))"

text \<open>\<^verbatim>\<open>\s\<close> and \<^verbatim>\<open>trim\<close>: the white space and line terminators among the code units below 256.\<close>

definition is_space :: "char \<Rightarrow> bool" where
  "is_space c = (c \<in> set [CHR 0x09, CHR 0x0A, CHR 0x0B, CHR 0x0C, CHR 0x0D, CHR 0x20, CHR 0xA0])"

definition is_digit :: "char \<Rightarrow> bool" where
  "is_digit c = (c \<in> set ''0123456789'')"

definition trim :: "string \<Rightarrow> string" where
  "trim s = rev (dropWhile is_space (rev (dropWhile is_space s)))"

subsection \<open>Values, objects and the heap\<close>

datatype val = VUndefined | VNull | VBool bool | VNum int | VStr string | VFun string | VRef nat

type_synonym obj = "(string \<times> val) list"

text \<open>Reading a property that the object does not have gives \<^verbatim>\<open>undefined\<close>.\<close>

definition obj_get :: "obj \<Rightarrow> string \<Rightarrow> val" where
  "obj_get ob k = (case map_of ob k of Some v \<Rightarrow> v | None \<Rightarrow> VUndefined)"

fun obj_set :: "string \<Rightarrow> val \<Rightarrow> obj \<Rightarrow> obj" where
  "obj_set k v [] = [(k, v)]"
| "obj_set k v ((k', v') # ob) = (if k' = k then (k, v) # ob else (k', v') # obj_set k v ob)"

definition heap_get :: "obj list \<Rightarrow> nat \<Rightarrow> obj" where
  "heap_get h a = (if a < length h then h ! a else [])"

definition heap_set :: "obj list \<Rightarrow> nat \<Rightarrow> string \<Rightarrow> val \<Rightarrow> obj list" where
  "heap_set h a k v = (if a < length h then h[a := obj_set k v (h ! a)] else h)"

subsection \<open>Thrown errors and trace lines\<close>

datatype js_error = Error string | ReferenceError string | TypeError string

datatype event =
    LogDetecting
  | LogDetected string
  | LogDetectFailed
  | LogRegistered string
  | WarnDuplicate string
  | LogLoading string
  | LogLoaded string

subsection \<open>Factories\<close>

text \<open>
  A factory is caller-supplied code \<^verbatim>\<open>(module, exports, require) => ...\<close>. What the
  registry can observe of it is a sequence of statements over its three arguments and the
  value it returns:
  \<^item> \<open>Require n\<close> is \<^verbatim>\<open>require(n);\<close>, an exception of which leaves the factory;
  \<^item> \<open>TryRequire n\<close> is \<^verbatim>\<open>try { require(n); } catch (e) {}\<close>;
  \<^item> \<open>ExportsSet k v\<close> is \<^verbatim>\<open>exports[k] = v;\<close> on the object passed as second argument;
  \<^item> \<open>ModuleExportsAssign r\<close> is \<^verbatim>\<open>module.exports = r;\<close>;
  \<^item> \<open>Throw e\<close> is \<^verbatim>\<open>throw e;\<close>.
  A right-hand side is a value at hand or an object literal, which allocates.
\<close>

datatype rhs = Lit val | NewObj obj

datatype stmt =
    Require string
  | TryRequire string
  | ExportsSet string val
  | ModuleExportsAssign rhs
  | Throw js_error

datatype factory = Factory "stmt list" rhs

subsection \<open>The registry\<close>

text \<open>
  \<^verbatim>\<open>modules\<close> and \<^verbatim>\<open>moduleFactories\<close> are plain objects \<^verbatim>\<open>{}\<close> used as dictionaries:
  their own properties are kept in the order \<^verbatim>\<open>Object.keys\<close> lists them. \<^verbatim>\<open>modules\<close>
  maps a name to the address of its module record \<^verbatim>\<open>{ exports: ... }\<close>.
  \<^verbatim>\<open>loadingModules\<close> is a \<^verbatim>\<open>Set\<close>, kept in insertion order.
  \<^verbatim>\<open>currentModule\<close> is \<^verbatim>\<open>globalThis.__currentModule\<close>.
\<close>

record registry =
  modules :: "(string \<times> nat) list"
  moduleFactories :: "(string \<times> factory) list"
  loadingModules :: "string list"
  heap :: "obj list"
  currentModule :: val

text \<open>
  A plain object inherits from \<^verbatim>\<open>Object.prototype\<close>, so \<^verbatim>\<open>modules[k]\<close> and
  \<^verbatim>\<open>moduleFactories[k]\<close> are truthy (a function, or the prototype object itself) for each of
  these keys although no own property exists, and \<^verbatim>\<open>.exports\<close> of that value is
  \<^verbatim>\<open>undefined\<close>.
\<close>

definition object_prototype_keys :: "string list" where
  "object_prototype_keys =
     [''constructor'', ''__defineGetter__'', ''__defineSetter__'', ''hasOwnProperty'',
      ''__lookupGetter__'', ''__lookupSetter__'', ''isPrototypeOf'', ''propertyIsEnumerable'',
      ''toString'', ''valueOf'', ''__proto__'', ''toLocaleString'']"

text \<open>
  Own string keys are listed in insertion order, after the keys that are array indices
  (canonical decimal numerals below \<open>2^32 - 1\<close>), which come first in ascending order.
\<close>

definition dec_value :: "string \<Rightarrow> nat" where
  "dec_value s = foldl (\<lambda>n c. 10 * n + (of_char c - 48)) 0 s"

definition is_array_index :: "string \<Rightarrow> bool" where
  "is_array_index k =
     (k \<noteq> [] \<and> list_all is_digit k \<and> (k = ''0'' \<or> hd k \<in> set ''123456789'')
      \<and> dec_value k < 2 ^ 32 - 1)"

fun insert_index :: "string \<Rightarrow> 'a \<Rightarrow> (string \<times> 'a) list \<Rightarrow> (string \<times> 'a) list" where
  "insert_index k v [] = [(k, v)]"
| "insert_index k v ((k', v') # ps) =
     (if is_array_index k' \<and> dec_value k' < dec_value k
      then (k', v') # insert_index k v ps else (k, v) # (k', v') # ps)"

text \<open>\<^verbatim>\<open>o[k] = v\<close> on a dictionary object.\<close>

definition dict_set :: "string \<Rightarrow> 'a \<Rightarrow> (string \<times> 'a) list \<Rightarrow> (string \<times> 'a) list" where
  "dict_set k v ps =
     (if k \<in> fst ` set ps then map (\<lambda>(k', v'). if k' = k then (k, v) else (k', v')) ps
      else if is_array_index k then insert_index k v ps
      else ps @ [(k, v)])"

definition set_add :: "string \<Rightarrow> string list \<Rightarrow> string list" where
  "set_add x xs = (if x \<in> set xs then xs else xs @ [x])"

definition set_delete :: "string \<Rightarrow> string list \<Rightarrow> string list" where
  "set_delete x xs = removeAll x xs"

subsection \<open>\<^verbatim>\<open>require\<close>: the candidate keys\<close>

text \<open>
  \<^verbatim>\<open>name.replace(/^\.\/?/, '')\<close> removes a leading dot and the slash after it, if any;
  \<^verbatim>\<open>name.replace(/^\.\.\/?/, '')\<close> then removes two leading dots and the slash after
  them, if any; a trailing \<^verbatim>\<open>.js\<close> is cut off last.
\<close>

definition normalize :: "string \<Rightarrow> string" where
  "normalize name =
     (let n1 = (if startsWith name ''./'' then drop 2 name
                else if startsWith name ''.'' then drop 1 name else name);
          n2 = (if startsWith n1 ''../'' then drop 3 n1
                else if startsWith n1 ''..'' then drop 2 n1 else n1)
      in if endsWith n2 ''.js'' then take (length n2 - 3) n2 else n2)"

definition candidates :: "string \<Rightarrow> string list" where
  "candidates moduleName =
     (let norm = normalize moduleName;
          base = last (split CHR ''/'' norm)
      in [moduleName]
         @ (if norm \<noteq> moduleName then [norm] else [])
         @ (if \<not> endsWith norm ''.js'' then [norm @ ''.js''] else [])
         @ (if base \<noteq> [] \<and> base \<noteq> norm
            then [base] @ (if \<not> endsWith base ''.js'' then [base @ ''.js''] else [])
            else []))"

text \<open>
  The loop over the candidates: a truthy \<^verbatim>\<open>modules[candidate]\<close> returns its
  \<^verbatim>\<open>exports\<close> at once, a truthy \<^verbatim>\<open>moduleFactories[candidate]\<close> selects the candidate.
  A key of \<^verbatim>\<open>Object.prototype\<close> is truthy in \<^verbatim>\<open>modules\<close> already.
\<close>

datatype scan = Cached val | Found string | NoMatch

fun scan_candidates :: "registry \<Rightarrow> string list \<Rightarrow> scan" where
  "scan_candidates s [] = NoMatch"
| "scan_candidates s (c # cs) =
     (case map_of (modules s) c of
        Some a \<Rightarrow> Cached (obj_get (heap_get (heap s) a) ''exports'')
      | None \<Rightarrow>
          if c \<in> set object_prototype_keys then Cached VUndefined
          else if map_of (moduleFactories s) c \<noteq> None then Found c
          else scan_candidates s cs)"

definition not_found_error :: "registry \<Rightarrow> string \<Rightarrow> js_error" where
  "not_found_error s moduleName =
     Error (''Module not found: '' @ moduleName
            @ ''. Tried: '' @ join '', '' (candidates moduleName)
            @ ''. Available modules: '' @ join '', '' (map fst (moduleFactories s)))"

definition circular_error :: "string \<Rightarrow> js_error" where
  "circular_error found = Error (''Circular dependency detected: '' @ found)"

subsection \<open>\<^verbatim>\<open>require\<close>: loading\<close>

text \<open>The value of a right-hand side; an object literal is allocated at the end of the heap.\<close>

fun eval_rhs :: "rhs \<Rightarrow> registry \<Rightarrow> val \<times> registry" where
  "eval_rhs (Lit v) s = (v, s)"
| "eval_rhs (NewObj ob) s = (VRef (length (heap s)), s\<lparr>heap := heap s @ [ob]\<rparr>)"

type_synonym 'a outcome = "((js_error + 'a) \<times> registry \<times> event list) option"

text \<open>
  \<open>require\<close> is the function of the source, \<open>load_module\<close> the body of its
  \<^verbatim>\<open>try\<close> block and \<open>run_factory\<close> the statements of the factory it calls, with the
  module record at \<open>m\<close> and the pre-seeded exports object at \<open>e\<close>. The first argument
  bounds the depth of nested factory calls; \<open>None\<close> means that the bound was reached.
\<close>

fun require :: "nat \<Rightarrow> string \<Rightarrow> registry \<Rightarrow> val outcome"
  and load_module :: "nat \<Rightarrow> string \<Rightarrow> registry \<Rightarrow> val outcome"
  and run_factory :: "nat \<Rightarrow> nat \<Rightarrow> nat \<Rightarrow> stmt list \<Rightarrow> registry \<Rightarrow> unit outcome"
where
  "require n moduleName s =
     (case scan_candidates s (candidates moduleName) of
        Cached v \<Rightarrow> Some (Inr v, s, [])
      | NoMatch \<Rightarrow> Some (Inl (not_found_error s moduleName), s, [])
      | Found found \<Rightarrow>
          if found = [] then Some (Inl (not_found_error s moduleName), s, [])
          else if found \<in> set (loadingModules s) then Some (Inl (circular_error found), s, [])
          else (case n of
                  0 \<Rightarrow> None
                | Suc k \<Rightarrow>
                    (case load_module k found (s\<lparr>loadingModules := set_add found (loadingModules s)\<rparr>) of
                       None \<Rightarrow> None
                     | Some (r, s', evs) \<Rightarrow>
                         Some (r, s'\<lparr>loadingModules := set_delete found (loadingModules s')\<rparr>, evs))))"
| "load_module k found s =
     (let e = length (heap s);
          m = Suc e;
          s1 = s\<lparr>heap := heap s @ [[], [(''exports'', VRef e)]]\<rparr>;
          s2 = s1\<lparr>modules := dict_set found m (modules s1)\<rparr>;
          previousModule = currentModule s2;
          s3 = s2\<lparr>currentModule := VRef m\<rparr>
      in case map_of (moduleFactories s3) found of
           None \<Rightarrow> Some (Inl (TypeError ''moduleFactories[found] is not a function''), s3,
                         [LogLoading found])
         | Some (Factory body ret) \<Rightarrow>
             (case run_factory k m e body s3 of
                None \<Rightarrow> None
              | Some (Inl err, s4, evs) \<Rightarrow> Some (Inl err, s4, LogLoading found # evs)
              | Some (Inr u, s4, evs) \<Rightarrow>
                  (let (result, s5) = eval_rhs ret s4;
                       s6 = (if result \<noteq> VUndefined
                             then s5\<lparr>heap := heap_set (heap s5) m ''exports'' result\<rparr> else s5);
                       s7 = s6\<lparr>currentModule := previousModule\<rparr>
                   in Some (Inr (obj_get (heap_get (heap s7) m) ''exports''), s7,
                            LogLoading found # evs @ [LogLoaded found]))))"
| "run_factory k m e [] s = Some (Inr (), s, [])"
| "run_factory k m e (Require name # rest) s =
     (case require k name s of
        None \<Rightarrow> None
      | Some (Inl err, s', evs) \<Rightarrow> Some (Inl err, s', evs)
      | Some (Inr v, s', evs) \<Rightarrow>
          (case run_factory k m e rest s' of
             None \<Rightarrow> None
           | Some (r, s'', evs') \<Rightarrow> Some (r, s'', evs @ evs')))"
| "run_factory k m e (TryRequire name # rest) s =
     (case require k name s of
        None \<Rightarrow> None
      | Some (r0, s', evs) \<Rightarrow>
          (case run_factory k m e rest s' of
             None \<Rightarrow> None
           | Some (r, s'', evs') \<Rightarrow> Some (r, s'', evs @ evs')))"
| "run_factory k m e (ExportsSet key v # rest) s =
     run_factory k m e rest (s\<lparr>heap := heap_set (heap s) e key v\<rparr>)"
| "run_factory k m e (ModuleExportsAssign r # rest) s =
     (let (v, s') = eval_rhs r s
      in run_factory k m e rest (s'\<lparr>heap := heap_set (heap s') m ''exports'' v\<rparr>))"
| "run_factory k m e (Throw err # rest) s = Some (Inl err, s, [])"



subsection \<open>Regular expressions\<close>

text \<open>
  The patterns of the source use literals, character classes, sequence, \<^verbatim>\<open>?\<close>,
  \<^verbatim>\<open>*\<close>, \<^verbatim>\<open>+\<close> and capture groups. \<open>ms r (inp, caps)\<close> lists the ways \<open>r\<close> matches a
  prefix of \<open>inp\<close> in the order a backtracking matcher tries them (greedy first), each with
  the rest of the input and the captures. \<^verbatim>\<open>line.match(r)\<close> is the first way at the
  leftmost position that has one.
\<close>

datatype cls = C char | Space | Digit

fun in_cls :: "char \<Rightarrow> cls \<Rightarrow> bool" where
  "in_cls c (C d) = (c = d)"
| "in_cls c Space = is_space c"
| "in_cls c Digit = is_digit c"

datatype rx = Lit_rx string | Set_rx "cls list" | NSet "cls list" | Seq rx rx | Opt rx | Star rx
  | Grp nat rx

type_synonym captures = "(nat \<times> string) list"

fun ms :: "rx \<Rightarrow> string \<times> captures \<Rightarrow> (string \<times> captures) list" where
  "ms (Lit_rx l) (inp, caps) = (if startsWith inp l then [(drop (length l) inp, caps)] else [])"
| "ms (Set_rx cs) (inp, caps) =
     (case inp of [] \<Rightarrow> [] | c # rest \<Rightarrow> if list_ex (in_cls c) cs then [(rest, caps)] else [])"
| "ms (NSet cs) (inp, caps) =
     (case inp of [] \<Rightarrow> [] | c # rest \<Rightarrow> if list_ex (in_cls c) cs then [] else [(rest, caps)])"
| "ms (Seq r1 r2) st = concat (map (ms r2) (ms r1 st))"
| "ms (Opt r) st = ms r st @ [st]"
| "ms (Star r) st =
     concat (map (\<lambda>st'. if length (fst st') < length (fst st) then ms (Star r) st' else [])
                 (ms r st)) @ [st]"
| "ms (Grp i r) (inp, caps) =
     map (\<lambda>(rest, caps'). (rest, (i, take (length inp - length rest) inp) # caps'))
         (ms r (inp, caps))"

definition match_at :: "rx \<Rightarrow> string \<Rightarrow> captures option" where
  "match_at r inp = (case ms r (inp, []) of [] \<Rightarrow> None | (rest, caps) # alts \<Rightarrow> Some caps)"

fun match :: "rx \<Rightarrow> string \<Rightarrow> captures option" where
  "match r [] = match_at r []"
| "match r (c # inp) =
     (case match_at r (c # inp) of Some caps \<Rightarrow> Some caps | None \<Rightarrow> match r inp)"

definition Plus :: "rx \<Rightarrow> rx" where
  "Plus r = Seq r (Star r)"

fun seq :: "rx list \<Rightarrow> rx" where
  "seq [] = Lit_rx []"
| "seq [r] = r"
| "seq (r # rs) = Seq r (seq rs)"

text \<open>\<^verbatim>\<open>[^/\s:]\<close>, \<^verbatim>\<open>[^/:()]\<close>, \<^verbatim>\<open>[^/\s:()]\<close>, \<^verbatim>\<open>:\d+:\d+\<close> and \<^verbatim>\<open>at\s+\<close>.\<close>

definition name_char :: rx where
  "name_char = NSet [C CHR ''/'', Space, C CHR '':'']"

definition file_char :: rx where
  "file_char = NSet [C CHR ''/'', C CHR '':'', C CHR ''('', C CHR '')'']"

definition plain_char :: rx where
  "plain_char = NSet [C CHR ''/'', Space, C CHR '':'', C CHR ''('', C CHR '')'']"

definition line_column :: rx where
  "line_column = seq [Lit_rx '':'', Plus (Set_rx [Digit]), Lit_rx '':'', Plus (Set_rx [Digit])]"

definition at_space :: rx where
  "at_space = Seq (Lit_rx ''at'') (Plus (Set_rx [Space]))"

text \<open>\<^verbatim>\<open>/at\s+([^/\s:]+\/)?([^/\s:]+(?:\/[^/\s:]+)*):\d+:\d+/\<close>\<close>

definition rx_prefix_path :: rx where
  "rx_prefix_path =
     seq [at_space, Opt (Grp 1 (Seq (Plus name_char) (Lit_rx ''/''))),
          Grp 2 (Seq (Plus name_char) (Star (Seq (Lit_rx ''/'') (Plus name_char)))),
          line_column]"

text \<open>\<^verbatim>\<open>/at\s+([^/\s:]+(?:\/[^/\s:]+)+):\d+:\d+/\<close>\<close>

definition rx_full_path :: rx where
  "rx_full_path =
     seq [at_space, Grp 1 (Seq (Plus name_char) (Plus (Seq (Lit_rx ''/'') (Plus name_char)))),
          line_column]"

text \<open>\<^verbatim>\<open>/\(([^/:()]+):\d+:\d+\)/\<close>\<close>

definition rx_parens :: rx where
  "rx_parens = seq [Lit_rx ''('', Grp 1 (Plus file_char), line_column, Lit_rx '')'']"

text \<open>\<^verbatim>\<open>/at\s+[^(]*\(([^/:()]+):\d+:\d+\)/\<close>\<close>

definition rx_at_parens :: rx where
  "rx_at_parens =
     seq [at_space, Star (NSet [C CHR ''('']), Lit_rx ''('', Grp 1 (Plus file_char),
          line_column, Lit_rx '')'']"

text \<open>\<^verbatim>\<open>/([^/\s]+)\.gs:\d+/\<close>\<close>

definition rx_gs :: rx where
  "rx_gs = seq [Grp 1 (Plus (NSet [C CHR ''/'', Space])), Lit_rx ''.gs:'', Plus (Set_rx [Digit])]"

text \<open>\<^verbatim>\<open>/at\s+([^.\s]+)\./\<close>\<close>

definition rx_at_dot :: rx where
  "rx_at_dot = seq [at_space, Grp 1 (Plus (NSet [C CHR ''.'', Space])), Lit_rx ''.'']"

text \<open>\<^verbatim>\<open>/at\s+([^/\s:]+):\d+:\d+/\<close>\<close>

definition rx_at_file :: rx where
  "rx_at_file = seq [at_space, Grp 1 (Plus name_char), line_column]"

text \<open>\<^verbatim>\<open>/^\s*([^/\s:()]+):\d+:\d+/\<close>, which \<open>match_at\<close> tries at the start of the line only.\<close>

definition rx_bare_file :: rx where
  "rx_bare_file = seq [Star (Set_rx [Space]), Grp 1 (Plus plain_char), line_column]"

text \<open>\<^verbatim>\<open>/at\s+([^/\s:()]+):\d+:\d+/\<close>\<close>

definition rx_at_plain_file :: rx where
  "rx_at_plain_file = seq [at_space, Grp 1 (Plus plain_char), line_column]"

subsection \<open>Names from stack lines\<close>

text \<open>The test every pattern's result has to pass before it is returned.\<close>

definition usable :: "string \<Rightarrow> bool" where
  "usable fullPath =
     (fullPath \<noteq> [] \<and> fullPath \<noteq> ''eval'' \<and> fullPath \<noteq> ''anonymous''
      \<and> \<not> startsWith fullPath ''__'' \<and> fullPath \<noteq> ''CommonJS'')"

text \<open>\<^verbatim>\<open>match[1]\<close> of a pattern with one group; nothing when the pattern does not match.\<close>

definition group1 :: "captures option \<Rightarrow> string option" where
  "group1 m = (case m of None \<Rightarrow> None | Some caps \<Rightarrow> map_of caps 1)"

text \<open>
  The name of the pattern with an optional path prefix: \<^verbatim>\<open>match[1]\<close> without its
  trailing slash, a slash and \<^verbatim>\<open>match[2]\<close>, or \<^verbatim>\<open>match[2]\<close> alone.
\<close>

definition prefix_path_name :: "captures option \<Rightarrow> string option" where
  "prefix_path_name m =
     (case m of
        None \<Rightarrow> None
      | Some caps \<Rightarrow>
          (let pathPrefix = (case map_of caps 1 of
                               None \<Rightarrow> []
                             | Some p \<Rightarrow> if endsWith p ''/'' then butlast p else p);
               filePart = (case map_of caps 2 of None \<Rightarrow> [] | Some f \<Rightarrow> f)
           in Some (if pathPrefix \<noteq> [] then pathPrefix @ ''/'' @ filePart else filePart)))"

text \<open>The first result, in the order of the patterns, that matched and is usable.\<close>

fun first_usable :: "string option list \<Rightarrow> string option" where
  "first_usable [] = None"
| "first_usable (None # rs) = first_usable rs"
| "first_usable (Some n # rs) = (if usable n then Some n else first_usable rs)"

subsection \<open>\<^verbatim>\<open>__detectModuleName__\<close>\<close>

definition detect_frame :: "string \<Rightarrow> string option" where
  "detect_frame line =
     first_usable
       [prefix_path_name (match rx_prefix_path line),
        group1 (match rx_full_path line),
        group1 (match rx_parens line),
        group1 (match rx_at_parens line),
        group1 (match rx_gs line),
        group1 (match rx_at_dot line),
        group1 (match rx_at_file line),
        group1 (match_at rx_bare_file line)]"

definition skipped :: "string \<Rightarrow> bool" where
  "skipped line =
     (trim line = [] \<or> js_includes line ''__detectModuleName__''
      \<or> js_includes line ''__defineModule__'')"

text \<open>The lines the loop passes over: empty after trimming, or naming the machinery itself.\<close>

definition internal_line :: "string \<Rightarrow> bool" where
  "internal_line line =
     (line = [] \<or> js_includes line ''__detectModuleName__''
      \<or> js_includes line ''__defineModule__'')"

fun detect_lines :: "string list \<Rightarrow> string option" where
  "detect_lines [] = None"
| "detect_lines (l # ls) =
     (let line = trim l
      in if internal_line line then detect_lines ls
         else (case detect_frame line of Some n \<Rightarrow> Some n | None \<Rightarrow> detect_lines ls))"

text \<open>
  \<^verbatim>\<open>JSON.stringify(debugInfo, null, 2)\<close> for the object
  \<^verbatim>\<open>{ stackTrace, lines, processedLines: [{ index, content, skipped }] }\<close>.
\<close>

definition hex_digit :: "nat \<Rightarrow> char" where
  "hex_digit n = ''0123456789abcdef'' ! (n mod 16)"

definition json_escape :: "char \<Rightarrow> string" where
  "json_escape c =
     (if c = CHR 0x22 then [CHR 0x5C, CHR 0x22]
      else if c = CHR 0x5C then [CHR 0x5C, CHR 0x5C]
      else if c = CHR 0x08 then [CHR 0x5C, CHR ''b'']
      else if c = CHR 0x0C then [CHR 0x5C, CHR ''f'']
      else if c = CHR 0x0A then [CHR 0x5C, CHR ''n'']
      else if c = CHR 0x0D then [CHR 0x5C, CHR ''r'']
      else if c = CHR 0x09 then [CHR 0x5C, CHR ''t'']
      else if (of_char c :: nat) < 32
      then [CHR 0x5C] @ ''u00'' @ [hex_digit (of_char c div 16), hex_digit (of_char c)]
      else [c])"

definition json_string :: "string \<Rightarrow> string" where
  "json_string s = [CHR 0x22] @ concat (map json_escape s) @ [CHR 0x22]"

fun decimal :: "nat \<Rightarrow> string" where
  "decimal n = (if n < 10 then [hex_digit n] else decimal (n div 10) @ [hex_digit (n mod 10)])"

definition json_array :: "string \<Rightarrow> string list \<Rightarrow> string" where
  "json_array indent items =
     (if items = [] then ''[]''
      else ''['' @ [CHR 0x0A]
           @ join ('','' @ [CHR 0x0A]) (map (\<lambda>item. indent @ ''  '' @ item) items)
           @ [CHR 0x0A] @ indent @ '']'')"

definition json_processed_line :: "nat \<times> string \<Rightarrow> string" where
  "json_processed_line il =
     ''{'' @ [CHR 0x0A]
     @ ''      '' @ json_string ''index'' @ '': '' @ decimal (fst il) @ '','' @ [CHR 0x0A]
     @ ''      '' @ json_string ''content'' @ '': '' @ json_string (trim (snd il)) @ '',''
     @ [CHR 0x0A]
     @ ''      '' @ json_string ''skipped'' @ '': ''
     @ (if skipped (snd il) then ''true'' else ''false'') @ [CHR 0x0A]
     @ ''    }''"

definition debug_info_json :: "string \<Rightarrow> string" where
  "debug_info_json stack =
     (let lines = split CHR 0x0A stack
      in ''{'' @ [CHR 0x0A]
         @ ''  '' @ json_string ''stackTrace'' @ '': '' @ json_string stack @ '','' @ [CHR 0x0A]
         @ ''  '' @ json_string ''lines'' @ '': '' @ json_array ''  '' (map json_string lines)
         @ '','' @ [CHR 0x0A]
         @ ''  '' @ json_string ''processedLines'' @ '': ''
         @ json_array ''  '' (map json_processed_line (zip [0..<length lines] lines))
         @ [CHR 0x0A] @ ''}'')"

definition detection_error :: "string \<Rightarrow> js_error" where
  "detection_error stack =
     Error (''Unable to detect module name from stack trace. Debug info: ''
            @ debug_info_json stack)"

text \<open>The argument is \<^verbatim>\<open>e.stack\<close> of the error the function throws to itself.\<close>

definition detectModuleName :: "string \<Rightarrow> (js_error + string) \<times> event list" where
  "detectModuleName stack =
     (case detect_lines (split CHR 0x0A stack) of
        Some fullPath \<Rightarrow> (Inr fullPath, [LogDetecting, LogDetected fullPath])
      | None \<Rightarrow> (Inl (detection_error stack), [LogDetecting, LogDetectFailed]))"

subsection \<open>\<^verbatim>\<open>__defineModule__\<close>\<close>

text \<open>
  \<^verbatim>\<open>explicitName || __detectModuleName__()\<close>: an absent or empty explicit name is falsy.
  \<^verbatim>\<open>moduleFactories[moduleName]\<close> is truthy for an own key and for an inherited one.
\<close>

definition resolve_name :: "string option \<Rightarrow> string \<Rightarrow> (js_error + string) \<times> event list" where
  "resolve_name explicitName stack =
     (case explicitName of
        None \<Rightarrow> detectModuleName stack
      | Some n \<Rightarrow> if n \<noteq> [] then (Inr n, []) else detectModuleName stack)"

definition defineModule ::
  "factory \<Rightarrow> string option \<Rightarrow> string \<Rightarrow> registry \<Rightarrow> (js_error + unit) \<times> registry \<times> event list"
where
  "defineModule moduleFactory explicitName stack s =
     (case resolve_name explicitName stack of
        (Inl err, evs) \<Rightarrow> (Inl err, s, evs)
      | (Inr moduleName, evs) \<Rightarrow>
          if moduleName \<in> fst ` set (moduleFactories s)
             \<or> moduleName \<in> set object_prototype_keys
          then (Inr (), s, evs @ [WarnDuplicate moduleName])
          else (Inr (),
                s\<lparr>moduleFactories := dict_set moduleName moduleFactory (moduleFactories s)\<rparr>,
                evs @ [LogRegistered moduleName]))"

subsection \<open>\<^verbatim>\<open>__getCurrentModule__\<close>\<close>

text \<open>
  The source calls \<^verbatim>\<open>__createModule__\<close>, which no file of the repository defines or
  assigns; the file is in strict mode, so evaluating the call raises a
  \<^verbatim>\<open>ReferenceError\<close>.
\<close>

definition createModule :: "string \<Rightarrow> js_error + val" where
  "createModule name = Inl (ReferenceError ''__createModule__ is not defined'')"

text \<open>
  \<^verbatim>\<open>modules[name] || __createModule__(name)\<close>: an own record, else the truthy function
  inherited from \<^verbatim>\<open>Object.prototype\<close>, else the call. (A usable name does not start with
  two underscores, so the inherited value is never the prototype object itself.)
\<close>

definition module_or_create :: "registry \<Rightarrow> string \<Rightarrow> js_error + val" where
  "module_or_create s name =
     (case map_of (modules s) name of
        Some a \<Rightarrow> Inr (VRef a)
      | None \<Rightarrow>
          if name \<in> set object_prototype_keys then Inr (VFun (''Object.prototype.'' @ name))
          else createModule name)"

definition current_frame :: "string \<Rightarrow> string option" where
  "current_frame line =
     first_usable
       [group1 (match rx_full_path line),
        prefix_path_name (match rx_prefix_path line),
        group1 (match rx_at_plain_file line)]"

fun current_lines :: "registry \<Rightarrow> string list \<Rightarrow> js_error + val" where
  "current_lines s [] = createModule ''unknown''"
| "current_lines s (line # ls) =
     (case current_frame line of
        Some name \<Rightarrow> module_or_create s name
      | None \<Rightarrow> current_lines s ls)"

definition getCurrentModule :: "string \<Rightarrow> registry \<Rightarrow> js_error + val" where
  "getCurrentModule stack s = current_lines s (split CHR 0x0A stack)"

subsection \<open>The registry after start-up, and the units of the repository\<close>

definition empty_registry :: registry where
  "empty_registry =
     \<lparr>modules = [], moduleFactories = [], loadingModules = [], heap = [],
      currentModule = VUndefined\<rparr>"

text \<open>The factory the file registers for itself under the explicit name \<^verbatim>\<open>CommonJS\<close>.\<close>

definition commonjs_factory :: factory where
  "commonjs_factory =
     Factory []
       (NewObj [(''getModuleInfo'', VFun ''getModuleInfo''), (''getModules'', VFun ''getModules''),
                (''require'', VFun ''require''), (''__defineModule__'', VFun ''__defineModule__''),
                (''__getCurrentModule__'', VFun ''__getCurrentModule__'')])"

definition initial_registry :: registry where
  "initial_registry = fst (snd (defineModule commonjs_factory (Some ''CommonJS'') [] empty_registry))"

text \<open>\<^verbatim>\<open>calculator.js\<close>: \<^verbatim>\<open>module.exports = { add, subtract, multiply, divide };\<close>\<close>

definition calculator_factory :: factory where
  "calculator_factory =
     Factory [ModuleExportsAssign
                (NewObj [(''add'', VFun ''add''), (''subtract'', VFun ''subtract''),
                         (''multiply'', VFun ''multiply''), (''divide'', VFun ''divide'')])]
       (Lit VUndefined)"

text \<open>
  A stack of the shape the host gives at the call \<^verbatim>\<open>__defineModule__(_main)\<close> in the
  last line of a file named \<open>file\<close>.
\<close>

definition define_stack :: "string \<Rightarrow> string" where
  "define_stack file =
     ''Error'' @ [CHR 0x0A]
     @ ''    at __detectModuleName__ (CommonJS:53:13)'' @ [CHR 0x0A]
     @ ''    at __defineModule__ (CommonJS:216:40)'' @ [CHR 0x0A]
     @ ''    at '' @ file @ '':26:1''"

text \<open>The registry after the file \<open>file\<close>, which ends with that call, has been evaluated.\<close>

definition define_file :: "factory \<Rightarrow> string \<Rightarrow> registry \<Rightarrow> registry" where
  "define_file moduleFactory file s = fst (snd (defineModule moduleFactory None (define_stack file) s))"

definition calculator_registry :: registry where
  "calculator_registry = define_file calculator_factory ''calculator'' initial_registry"

subsection \<open>Test units\<close>

text \<open>A unit whose factory sets \<^verbatim>\<open>exports.ready = false\<close> and then throws.\<close>

definition failing_factory :: factory where
  "failing_factory =
     Factory [ExportsSet ''ready'' (VBool False), Throw (Error ''boom'')] (Lit VUndefined)"

definition failing_registry :: registry where
  "failing_registry = define_file failing_factory ''broken'' initial_registry"

text \<open>
  A unit whose factory sets \<^verbatim>\<open>exports.greet\<close>, requires the calculator and returns
  nothing.
\<close>

definition mutating_factory :: factory where
  "mutating_factory =
     Factory [ExportsSet ''greet'' (VFun ''greet''), Require ''calculator''] (Lit VUndefined)"


text \<open>
  Two units that require each other: \<^verbatim>\<open>A\<close> sets \<^verbatim>\<open>exports.x = 1\<close> and requires
  \<^verbatim>\<open>B\<close>, whose factory requires \<^verbatim>\<open>A\<close>.
\<close>

definition unit_a :: factory where
  "unit_a = Factory [ExportsSet ''x'' (VNum 1), Require ''B''] (Lit VUndefined)"

definition unit_b :: factory where
  "unit_b = Factory [Require ''A''] (Lit VUndefined)"

definition cycle_registry :: registry where
  "cycle_registry = define_file unit_b ''B'' (define_file unit_a ''A'' initial_registry)"

text \<open>A unit whose factory requires a unit that nobody registered.\<close>

definition needy_factory :: factory where
  "needy_factory = Factory [Require ''missing''] (Lit VUndefined)"

definition needy_registry :: registry where
  "needy_registry = define_file needy_factory ''needy'' initial_registry"

text \<open>A unit in a directory: the file \<^verbatim>\<open>group/util\<close> sets \<^verbatim>\<open>exports.helper\<close>.\<close>

definition util_factory :: factory where
  "util_factory = Factory [ExportsSet ''helper'' (VFun ''helper'')] (Lit VUndefined)"

definition util_registry :: registry where
  "util_registry = define_file util_factory ''group/util'' initial_registry"

subsection \<open>Notions used in the statements and proofs\<close>

text \<open>
  The registry at the moment \<^verbatim>\<open>require\<close> calls the factory of \<open>found\<close>: the name
  is in the loading set, the pre-seeded exports object is at the old end of the heap, the module
  record after it, and the record is in \<^verbatim>\<open>modules\<close> and is the current module.
\<close>

definition entry_state :: "string \<Rightarrow> registry \<Rightarrow> registry" where
  "entry_state found s =
     s\<lparr>loadingModules := set_add found (loadingModules s),
       heap := heap s @ [[], [(''exports'', VRef (length (heap s)))]],
       modules := dict_set found (Suc (length (heap s))) (modules s),
       currentModule := VRef (Suc (length (heap s)))\<rparr>"

text \<open>
  Reading a JSON string literal back: \<open>read_json_string\<close> takes the literal at the start of
  its input and gives the string it denotes and the input after the closing quote. It is
  written from the JSON grammar, not from \<open>json_string\<close>.
\<close>

definition hex_value :: "char \<Rightarrow> nat" where
  "hex_value c =
     (if is_digit c then of_char c - 48
      else if c \<in> set ''abcdef'' then of_char c - 87
      else if c \<in> set ''ABCDEF'' then of_char c - 55
      else 0)"

definition unescape_char :: "char \<Rightarrow> char option" where
  "unescape_char d =
     (if d = CHR 0x22 then Some (CHR 0x22)
      else if d = CHR 0x5C then Some (CHR 0x5C)
      else if d = CHR ''/'' then Some (CHR ''/'')
      else if d = CHR ''b'' then Some (CHR 0x08)
      else if d = CHR ''f'' then Some (CHR 0x0C)
      else if d = CHR ''n'' then Some (CHR 0x0A)
      else if d = CHR ''r'' then Some (CHR 0x0D)
      else if d = CHR ''t'' then Some (CHR 0x09)
      else None)"

fun read_body :: "string \<Rightarrow> (string \<times> string) option" where
  "read_body [] = None"
| "read_body (c # cs) =
     (if c = CHR 0x22 then Some ([], cs)
      else if c = CHR 0x5C then
        (case cs of
           [] \<Rightarrow> None
         | d # ds \<Rightarrow>
             if d = CHR ''u'' then
               (case ds of
                  a # b # x # y # r \<Rightarrow>
                    (case read_body r of
                       None \<Rightarrow> None
                     | Some (s, rest) \<Rightarrow>
                         Some (char_of (((hex_value a * 16 + hex_value b) * 16 + hex_value x) * 16
                                        + hex_value y) # s, rest))
                | _ \<Rightarrow> None)
             else
               (case unescape_char d of
                  None \<Rightarrow> None
                | Some ch \<Rightarrow>
                    (case read_body ds of
                       None \<Rightarrow> None
                     | Some (s, rest) \<Rightarrow> Some (ch # s, rest))))
      else (case read_body cs of
              None \<Rightarrow> None
            | Some (s, rest) \<Rightarrow> Some (c # s, rest)))"

definition read_json_string :: "string \<Rightarrow> (string \<times> string) option" where
  "read_json_string inp =
     (case inp of [] \<Rightarrow> None | c # cs \<Rightarrow> if c = CHR 0x22 then read_body cs else None)"

text \<open>The factory body contains an assignment \<^verbatim>\<open>module.exports = ...\<close>.\<close>

definition assigns_module_exports :: "stmt list \<Rightarrow> bool" where
  "assigns_module_exports body = list_ex (\<lambda>st. case st of ModuleExportsAssign r \<Rightarrow> True | _ \<Rightarrow> False) body"

text \<open>
  What a call leaves as it was: the heap grows only, the objects at the addresses in
  \<open>keep\<close> are untouched, the factories and the loading set are the same, and a name that
  had a module record keeps it and is not loaded again.
\<close>

definition frame :: "(nat \<Rightarrow> bool) \<Rightarrow> registry \<Rightarrow> registry \<Rightarrow> event list \<Rightarrow> bool" where
  "frame keep s s' evs \<longleftrightarrow>
     length (heap s) \<le> length (heap s')
     \<and> (\<forall>a<length (heap s). keep a \<longrightarrow> heap s' ! a = heap s ! a)
     \<and> moduleFactories s' = moduleFactories s
     \<and> loadingModules s' = loadingModules s
     \<and> (\<forall>name a. map_of (modules s) name = Some a \<longrightarrow>
            map_of (modules s') name = Some a \<and> LogLoading name \<notin> set evs)"


section \<open>Properties\<close>

declare require.simps [simp del] load_module.simps [simp del]

subsection \<open>Dictionaries and the heap\<close>

lemma map_of_insert_index:
  "k \<notin> fst ` set ps \<Longrightarrow> map_of (insert_index k v ps) = (map_of ps)(k \<mapsto> v)"
  by (induction ps) (auto simp: fun_upd_twist)

lemma map_of_update_in_place:
  "map_of (map (\<lambda>(k', v'). if k' = k then (k, v) else (k', v')) ps) x =
     (if x = k then (if k \<in> fst ` set ps then Some v else None) else map_of ps x)"
  by (induction ps) force+

lemma map_of_snoc:
  "k \<notin> fst ` set ps \<Longrightarrow> map_of (ps @ [(k, v)]) = (map_of ps)(k \<mapsto> v)"
proof -
  assume "k \<notin> fst ` set ps"
  then have "map_of ps k = None"
    by (simp add: map_of_eq_None_iff)
  then show ?thesis
    by (auto simp: fun_eq_iff map_add_def split: option.splits)
qed

lemma map_of_dict_set: "map_of (dict_set k v ps) = (map_of ps)(k \<mapsto> v)"
proof (cases "k \<in> fst ` set ps")
  case True
  then show ?thesis
    by (auto simp: dict_set_def map_of_update_in_place fun_eq_iff)
next
  case False
  then show ?thesis
    using map_of_snoc [of k ps v]
    by (simp add: dict_set_def map_of_insert_index del: map_of_append)
qed

lemma length_heap_set [simp]: "length (heap_set h a k v) = length h"
  by (simp add: heap_set_def)

lemma nth_heap_set_other: "b \<noteq> a \<Longrightarrow> heap_set h a k v ! b = h ! b"
  by (simp add: heap_set_def)

lemma obj_get_obj_set [simp]: "obj_get (obj_set k v ob) k = v"
  by (induction ob) (auto simp: obj_get_def)


lemma set_delete_set_add: "x \<notin> set xs \<Longrightarrow> set_delete x (set_add x xs) = xs"
  by (simp add: set_delete_def set_add_def)

subsection \<open>The scan of the candidates\<close>

lemma scan_Found:
  "scan_candidates s cs = Found f \<Longrightarrow>
     f \<in> set cs \<and> map_of (modules s) f = None \<and> f \<notin> set object_prototype_keys
     \<and> map_of (moduleFactories s) f \<noteq> None"
  by (induction cs) (auto split: option.splits if_splits)

lemma candidates_first: "candidates name = name # tl (candidates name)"
  by (simp add: candidates_def Let_def)

lemma scan_registered:
  assumes "map_of (moduleFactories s) name = Some fac" and "map_of (modules s) name = None"
    and "name \<notin> set object_prototype_keys"
  shows "scan_candidates s (candidates name) = Found name"
  using assms by (subst candidates_first) simp

lemma scan_loaded:
  assumes "map_of (modules s) name = Some a"
  shows "scan_candidates s (candidates name) = Cached (obj_get (heap_get (heap s) a) ''exports'')"
  using assms by (subst candidates_first) simp

subsection \<open>What a call leaves as it was\<close>

lemma assigns_module_exports_Cons:
  "assigns_module_exports (st # rest) \<longleftrightarrow>
     (\<exists>r. st = ModuleExportsAssign r) \<or> assigns_module_exports rest"
  by (cases st) (simp_all add: assigns_module_exports_def)

lemma frame_refl: "frame keep s s []"
  by (simp add: frame_def)

lemma frame_trans:
  "frame keep s s' evs \<Longrightarrow> frame keep s' s'' evs' \<Longrightarrow> frame keep s s'' (evs @ evs')"
  by (auto simp: frame_def)

lemma frame_weaken:
  "frame keep s s' evs \<Longrightarrow> (\<And>a. keep' a \<Longrightarrow> keep a) \<Longrightarrow> frame keep' s s' evs"
  by (auto simp: frame_def)

lemma eval_rhs_frame: "eval_rhs r s = (v, s') \<Longrightarrow> frame (\<lambda>a. True) s s' []"
  by (cases r) (auto simp: frame_def nth_append)

lemma heap_set_frame: "frame (\<lambda>a. a \<noteq> b) s (s\<lparr>heap := heap_set (heap s) b k v\<rparr>) []"
  by (simp add: frame_def nth_heap_set_other)

lemma run_factory_frame_step:
  assumes req: "\<And>x s r s' evs. require k x s = Some (r, s', evs) \<Longrightarrow> frame (\<lambda>a. True) s s' evs"
  shows "run_factory k m e body s = Some (r, s', evs) \<Longrightarrow>
           frame (\<lambda>a. a \<noteq> e \<and> (a = m \<longrightarrow> \<not> assigns_module_exports body)) s s' evs"
proof (induction body arbitrary: s r s' evs)
  case Nil
  then show ?case by (simp add: frame_refl)
next
  case (Cons st rest)
  let ?K = "\<lambda>a. a \<noteq> e \<and> (a = m \<longrightarrow> \<not> assigns_module_exports (st # rest))"
  have weak: "\<And>t t' es.
      frame (\<lambda>a. a \<noteq> e \<and> (a = m \<longrightarrow> \<not> assigns_module_exports rest)) t t' es \<Longrightarrow> frame ?K t t' es"
    by (erule frame_weaken) (auto simp: assigns_module_exports_Cons)
  show ?case
  proof (cases st)
    case (Require name)
    with Cons.prems obtain r0 s0 evs0 where r0: "require k name s = Some (r0, s0, evs0)"
      by (auto split: option.splits)
    have f0: "frame ?K s s0 evs0"
      using req [OF r0] by (rule frame_weaken) simp
    show ?thesis
    proof (cases r0)
      case (Inl err)
      with Cons.prems Require r0 f0 show ?thesis by auto
    next
      case (Inr v)
      with Cons.prems Require r0 obtain evs1 where
        r1: "run_factory k m e rest s0 = Some (r, s', evs1)" and ev: "evs = evs0 @ evs1"
        by (auto split: option.splits)
      from frame_trans [OF f0 weak [OF Cons.IH [OF r1]]] ev show ?thesis by simp
    qed
  next
    case (TryRequire name)
    with Cons.prems obtain r0 s0 evs0 evs1 where r0: "require k name s = Some (r0, s0, evs0)"
      and r1: "run_factory k m e rest s0 = Some (r, s', evs1)" and ev: "evs = evs0 @ evs1"
      by (auto split: option.splits)
    have f0: "frame ?K s s0 evs0"
      using req [OF r0] by (rule frame_weaken) simp
    from frame_trans [OF f0 weak [OF Cons.IH [OF r1]]] ev show ?thesis by simp
  next
    case (ExportsSet key v)
    with Cons.prems
    have r1: "run_factory k m e rest (s\<lparr>heap := heap_set (heap s) e key v\<rparr>) = Some (r, s', evs)"
      by simp
    have f0: "frame ?K s (s\<lparr>heap := heap_set (heap s) e key v\<rparr>) []"
      using heap_set_frame [of e s key v] by (rule frame_weaken) simp
    from frame_trans [OF f0 weak [OF Cons.IH [OF r1]]] show ?thesis by simp
  next
    case (ModuleExportsAssign rh)
    obtain v s0 where ev: "eval_rhs rh s = (v, s0)" by (cases "eval_rhs rh s")
    with Cons.prems ModuleExportsAssign
    have r1: "run_factory k m e rest (s0\<lparr>heap := heap_set (heap s0) m ''exports'' v\<rparr>)
                = Some (r, s', evs)"
      by simp
    have f0: "frame ?K s s0 []"
      using eval_rhs_frame [OF ev] by (rule frame_weaken) simp
    have f1: "frame ?K s0 (s0\<lparr>heap := heap_set (heap s0) m ''exports'' v\<rparr>) []"
      using heap_set_frame [of m s0 "''exports''" v]
      by (rule frame_weaken) (auto simp: ModuleExportsAssign assigns_module_exports_Cons)
    from frame_trans [OF frame_trans [OF f0 f1] weak [OF Cons.IH [OF r1]]] show ?thesis by simp
  next
    case (Throw err)
    with Cons.prems show ?thesis by (auto simp: frame_refl)
  qed
qed

lemma load_module_frame_step:
  assumes run: "\<And>m e body s r s' evs. run_factory k m e body s = Some (r, s', evs) \<Longrightarrow>
                  frame (\<lambda>a. a \<noteq> e \<and> (a = m \<longrightarrow> \<not> assigns_module_exports body)) s s' evs"
    and load: "load_module k found s = Some (r, s', evs)"
    and fresh: "map_of (modules s) found = None"
  shows "frame (\<lambda>a. True) s s' evs"
proof -
  let ?e = "length (heap s)"
  let ?m = "Suc ?e"
  let ?s3 = "s\<lparr>heap := heap s @ [[], [(''exports'', VRef ?e)]],
               modules := dict_set found ?m (modules s), currentModule := VRef ?m\<rparr>"
  have f0: "frame (\<lambda>a. True) s ?s3 [LogLoading found]"
    using fresh by (auto simp: frame_def nth_append map_of_dict_set)
  show ?thesis
  proof (cases "map_of (moduleFactories s) found")
    case None
    with load f0 show ?thesis by (simp add: load_module.simps Let_def)
  next
    case (Some fac)
    obtain body ret where fac: "fac = Factory body ret" by (cases fac)
    from load Some fac obtain r4 s4 evs4 where
      r4: "run_factory k ?m ?e body ?s3 = Some (r4, s4, evs4)"
      by (auto simp: load_module.simps Let_def split: option.splits)
    have f4: "frame (\<lambda>a. a < ?e) ?s3 s4 evs4"
      using run [OF r4] by (rule frame_weaken) simp
    have f04: "frame (\<lambda>a. a < ?e) s s4 (LogLoading found # evs4)"
      using frame_trans [OF frame_weaken [OF f0] f4] by simp
    show ?thesis
    proof (cases r4)
      case (Inl err)
      with load Some fac r4 have "s' = s4" "evs = LogLoading found # evs4"
        by (auto simp: load_module.simps Let_def)
      with f04 show ?thesis by (auto simp: frame_def)
    next
      case (Inr u)
      obtain result s5 where ev: "eval_rhs ret s4 = (result, s5)" by (cases "eval_rhs ret s4")
      let ?s6 = "if result \<noteq> VUndefined
                 then s5\<lparr>heap := heap_set (heap s5) ?m ''exports'' result\<rparr> else s5"
      from load Some fac r4 Inr ev have s': "s' = ?s6\<lparr>currentModule := currentModule s\<rparr>"
        and evs: "evs = LogLoading found # evs4 @ [LogLoaded found]"
        by (auto simp: load_module.simps Let_def)
      have f5: "frame (\<lambda>a. a < ?e) s4 s5 []"
        using eval_rhs_frame [OF ev] by (rule frame_weaken) simp
      have f6: "frame (\<lambda>a. a < ?e) s5 ?s6 []"
        using heap_set_frame [of ?m s5 "''exports''" result]
        by (auto simp: frame_refl elim: frame_weaken)
      have f7: "frame (\<lambda>a. a < ?e) ?s6 s' [LogLoaded found]"
        unfolding s' by (auto simp: frame_def)
      from frame_trans [OF frame_trans [OF frame_trans [OF f04 f5] f6] f7] evs
      show ?thesis by (auto simp: frame_def)
    qed
  qed
qed

lemma require_frame:
  "require n x s = Some (r, s', evs) \<Longrightarrow> frame (\<lambda>a. True) s s' evs"
proof (induction n arbitrary: x s r s' evs)
  case 0
  then show ?case
    by (auto simp: require.simps frame_refl split: scan.splits if_splits)
next
  case (Suc k)
  show ?case
  proof (cases "scan_candidates s (candidates x)")
    case (Cached v)
    with Suc.prems show ?thesis by (auto simp: require.simps frame_refl)
  next
    case NoMatch
    with Suc.prems show ?thesis by (auto simp: require.simps frame_refl)
  next
    case (Found found)
    show ?thesis
    proof (cases "found = [] \<or> found \<in> set (loadingModules s)")
      case True
      with Suc.prems Found show ?thesis
        by (auto simp: require.simps frame_refl split: if_splits)
    next
      case False
      let ?s0 = "s\<lparr>loadingModules := set_add found (loadingModules s)\<rparr>"
      from Suc.prems Found False obtain s1 where
        ld: "load_module k found ?s0 = Some (r, s1, evs)"
        and s': "s' = s1\<lparr>loadingModules := set_delete found (loadingModules s1)\<rparr>"
        by (auto simp: require.simps split: option.splits)
      have fresh: "map_of (modules ?s0) found = None"
        using scan_Found [OF Found] by simp
      have "frame (\<lambda>a. True) ?s0 s1 evs"
        using run_factory_frame_step [OF Suc.IH] ld fresh by (rule load_module_frame_step)
      with False s' show ?thesis
        by (auto simp: frame_def set_delete_set_add)
    qed
  qed
qed

lemma run_factory_frame:
  "run_factory k m e body s = Some (r, s', evs) \<Longrightarrow>
     frame (\<lambda>a. a \<noteq> e \<and> (a = m \<longrightarrow> \<not> assigns_module_exports body)) s s' evs"
  by (rule run_factory_frame_step [OF require_frame])

subsection \<open>Loading a registered unit\<close>

lemma require_loaded:
  assumes "map_of (modules s) name = Some a"
  shows "require n name s = Some (Inr (obj_get (heap_get (heap s) a) ''exports''), s, [])"
  using scan_loaded [OF assms] by (simp add: require.simps)

lemma require_registered:
  assumes reg: "map_of (moduleFactories s) name = Some fac"
    and fresh: "map_of (modules s) name = None" "name \<notin> set object_prototype_keys"
    and live: "name \<noteq> []" "name \<notin> set (loadingModules s)"
  shows "require (Suc k) name s =
           (case load_module k name (s\<lparr>loadingModules := set_add name (loadingModules s)\<rparr>) of
              None \<Rightarrow> None
            | Some (r, s', evs) \<Rightarrow>
                Some (r, s'\<lparr>loadingModules := set_delete name (loadingModules s')\<rparr>, evs))"
    and "require 0 name s = None"
  using scan_registered [OF reg fresh] live by (simp_all add: require.simps)

lemma load_module_entry:
  assumes reg: "map_of (moduleFactories s) name = Some (Factory body ret)"
  shows "load_module k name (s\<lparr>loadingModules := set_add name (loadingModules s)\<rparr>) =
           (case run_factory k (Suc (length (heap s))) (length (heap s)) body (entry_state name s) of
              None \<Rightarrow> None
            | Some (Inl err, s4, evs) \<Rightarrow> Some (Inl err, s4, LogLoading name # evs)
            | Some (Inr u, s4, evs) \<Rightarrow>
                (let (result, s5) = eval_rhs ret s4;
                     s6 = (if result \<noteq> VUndefined
                           then s5\<lparr>heap := heap_set (heap s5) (Suc (length (heap s)))
                                              ''exports'' result\<rparr>
                           else s5);
                     s7 = s6\<lparr>currentModule := currentModule s\<rparr>
                 in Some (Inr (obj_get (heap_get (heap s7) (Suc (length (heap s)))) ''exports''),
                          s7, LogLoading name # evs @ [LogLoaded name])))"
proof -
  let ?s0 = "s\<lparr>loadingModules := set_add name (loadingModules s)\<rparr>"
  have entry: "entry_state name s =
      ?s0\<lparr>heap := heap ?s0 @ [[], [(''exports'', VRef (length (heap ?s0)))]],
          modules := dict_set name (Suc (length (heap ?s0))) (modules ?s0),
          currentModule := VRef (Suc (length (heap ?s0)))\<rparr>"
    by (simp add: entry_state_def)
  show ?thesis
    unfolding entry using reg
    by (simp add: load_module.simps Let_def split: option.splits sum.splits prod.splits)
qed

lemma entry_modules: "map_of (modules (entry_state name s)) name = Some (Suc (length (heap s)))"
  by (simp add: entry_state_def map_of_dict_set)

lemma run_factory_entry:
  assumes run: "run_factory k (Suc (length (heap s))) (length (heap s)) body (entry_state name s)
                  = Some (r4, s4, evs4)"
  shows "map_of (modules s4) name = Some (Suc (length (heap s)))"
    and "LogLoading name \<notin> set evs4"
    and "loadingModules s4 = set_add name (loadingModules s)"
    and "length (heap s) + 2 \<le> length (heap s4)"
    and "\<not> assigns_module_exports body \<Longrightarrow>
           heap s4 ! Suc (length (heap s)) = [(''exports'', VRef (length (heap s)))]"
proof -
  have fr: "frame (\<lambda>a. a \<noteq> length (heap s)
                        \<and> (a = Suc (length (heap s)) \<longrightarrow> \<not> assigns_module_exports body))
              (entry_state name s) s4 evs4"
    using run by (rule run_factory_frame)
  from fr entry_modules [of name s]
  show "map_of (modules s4) name = Some (Suc (length (heap s)))"
    and "LogLoading name \<notin> set evs4"
    by (auto simp: frame_def)
  from fr show "loadingModules s4 = set_add name (loadingModules s)"
    by (simp add: frame_def entry_state_def)
  from fr show "length (heap s) + 2 \<le> length (heap s4)"
    by (simp add: frame_def entry_state_def)
  assume "\<not> assigns_module_exports body"
  with fr have "heap s4 ! Suc (length (heap s)) = heap (entry_state name s) ! Suc (length (heap s))"
    by (simp add: frame_def entry_state_def)
  then show "heap s4 ! Suc (length (heap s)) = [(''exports'', VRef (length (heap s)))]"
    by (simp add: entry_state_def nth_append)
qed






subsection \<open>Cycles\<close>

text \<open>
  The check of the loading set comes after the scan, and the scan selects only names without a
  module record. Every name enters the loading set together with its record, so a selected
  name is never in the loading set.
\<close>

lemma circular_check_unreachable:
  assumes "\<forall>f\<in>set (loadingModules s). map_of (modules s) f \<noteq> None"
    and "scan_candidates s cs = Found found"
  shows "found \<notin> set (loadingModules s)"
  using assms scan_Found [of s cs found] by auto

lemma entry_state_loading:
  assumes "\<forall>f\<in>set (loadingModules s). map_of (modules s) f \<noteq> None"
  shows "\<forall>f\<in>set (loadingModules (entry_state found s)).
           map_of (modules (entry_state found s)) f \<noteq> None"
  using assms by (auto simp: entry_state_def map_of_dict_set set_add_def)

text \<open>
  C1. The claim: when the factory of \<^verbatim>\<open>A\<close> requires \<^verbatim>\<open>B\<close> and the factory of \<^verbatim>\<open>B\<close>
  requires \<^verbatim>\<open>A\<close>, \<^verbatim>\<open>require('A')\<close> raises the circular dependency error. The code does
  not: the module record of \<^verbatim>\<open>A\<close> is in \<^verbatim>\<open>modules\<close> before its factory runs, so the
  inner \<^verbatim>\<open>require('A')\<close> returns the record's exports from the cache, the factory of
  \<^verbatim>\<open>B\<close> completes, and the outer call returns the exports of \<^verbatim>\<open>A\<close> with both units
  loaded and no error.
\<close>

theorem require_cycle_returns:
  "map_option (\<lambda>(r, s', evs). (r, modules s', loadingModules s', evs))
     (require 2 ''A'' cycle_registry)
   = Some (Inr (VRef 0), [(''A'', 1), (''B'', 3)], [],
           [LogLoading ''A'', LogLoading ''B'', LogLoaded ''B'', LogLoaded ''A''])"
  by code_simp

subsection \<open>Single instantiation\<close>



subsection \<open>A factory that throws\<close>

text \<open>
  C5. When the factory of a registered, not yet loaded unit ends in an exception \<open>err\<close>
  (its own, or one of a \<^verbatim>\<open>require\<close> inside it), \<^verbatim>\<open>require\<close> raises that same
  \<open>err\<close>; the loading set is what it was before the call, so the name is not in it; the
  module record stays in \<^verbatim>\<open>modules\<close>; and every later \<^verbatim>\<open>require\<close> of the name returns
  the exports of that record as the factory left them, changes nothing and emits no trace
  line, so the factory is not called again.
\<close>

theorem require_factory_throws:
  assumes reg: "map_of (moduleFactories s) name = Some (Factory body ret)"
    and fresh: "map_of (modules s) name = None" "name \<notin> set object_prototype_keys"
    and live: "name \<noteq> []" "name \<notin> set (loadingModules s)"
    and thrown: "run_factory k (Suc (length (heap s))) (length (heap s)) body (entry_state name s)
                   = Some (Inl err, s4, evs4)"
  shows "require (Suc k) name s
           = Some (Inl err, s4\<lparr>loadingModules := loadingModules s\<rparr>, LogLoading name # evs4)
         \<and> map_of (modules s4) name = Some (Suc (length (heap s)))
         \<and> (\<forall>j. require j name (s4\<lparr>loadingModules := loadingModules s\<rparr>)
                  = Some (Inr (obj_get (heap_get (heap s4) (Suc (length (heap s)))) ''exports''),
                          s4\<lparr>loadingModules := loadingModules s\<rparr>, []))
         \<and> LogLoading name \<notin> set evs4"
proof -
  let ?s1 = "s4\<lparr>loadingModules := loadingModules s\<rparr>"
  have m4: "map_of (modules s4) name = Some (Suc (length (heap s)))"
    and quiet: "LogLoading name \<notin> set evs4"
    and l4: "loadingModules s4 = set_add name (loadingModules s)"
    using thrown by (rule run_factory_entry)+
  have "load_module k name (s\<lparr>loadingModules := set_add name (loadingModules s)\<rparr>)
          = Some (Inl err, s4, LogLoading name # evs4)"
    using load_module_entry [OF reg, of k] thrown by simp
  then have "require (Suc k) name s = Some (Inl err, ?s1, LogLoading name # evs4)"
    using require_registered(1) [OF reg fresh live, of k] l4 live
    by (simp add: set_delete_set_add)
  moreover have "require j name ?s1
      = Some (Inr (obj_get (heap_get (heap s4) (Suc (length (heap s)))) ''exports''), ?s1, [])" for j
    using require_loaded [of ?s1 name "Suc (length (heap s))" j] m4 by simp
  ultimately show ?thesis using m4 quiet by blast
qed

text \<open>The unit that sets \<^verbatim>\<open>exports.ready\<close> and throws, required twice.\<close>

theorem require_factory_throws_witness:
  "map_option (\<lambda>(r, s', evs). (r, modules s', loadingModules s', heap s'))
     (require 1 ''broken'' failing_registry)
     = Some (Inl (Error ''boom''), [(''broken'', 1)], [],
             [[(''ready'', VBool False)], [(''exports'', VRef 0)]])
   \<and> map_option (\<lambda>(r, s', evs). (r, evs))
       (require 0 ''broken'' (fst (snd (the (require 1 ''broken'' failing_registry)))))
     = Some (Inr (VRef 0), [])"
proof -
  let ?s4 = "entry_state ''broken'' failing_registry\<lparr>heap := [[(''ready'', VBool False)], [(''exports'', VRef 0)]]\<rparr>"
  have reg: "map_of (moduleFactories failing_registry) ''broken''
               = Some (Factory [ExportsSet ''ready'' (VBool False), Throw (Error ''boom'')] (Lit VUndefined))"
    by code_simp
  have fresh: "map_of (modules failing_registry) ''broken'' = None"
    "''broken'' \<notin> set object_prototype_keys"
    by code_simp+
  have live: "''broken'' \<noteq> []" "''broken'' \<notin> set (loadingModules failing_registry)"
    by code_simp+
  have thrown: "run_factory 0 (Suc (length (heap failing_registry))) (length (heap failing_registry))
                  [ExportsSet ''ready'' (VBool False), Throw (Error ''boom'')]
                  (entry_state ''broken'' failing_registry)
                = Some (Inl (Error ''boom''), ?s4, [])"
    by code_simp
  have h: "heap failing_registry = []" "loadingModules failing_registry = []"
    "modules ?s4 = [(''broken'', 1)]"
    by code_simp+
  from require_factory_throws [OF reg fresh live thrown] h
  show ?thesis by (simp add: heap_get_def obj_get_def)
qed

subsection \<open>Replacement of the exports\<close>



subsection \<open>Registering a name twice\<close>

text \<open>
  C7. When the name of a registration (explicit, or detected from the stack) already has a
  factory, \<^verbatim>\<open>__defineModule__\<close> returns normally with the registry as it was and a warning
  as its last trace line; the first factory is still the one registered, and
  \<^verbatim>\<open>require\<close> of the name behaves as before the second registration.
\<close>

theorem defineModule_duplicate:
  assumes reg: "map_of (moduleFactories s) name = Some first_factory"
    and named: "resolve_name explicitName stack = (Inr name, evs)"
  shows "defineModule second_factory explicitName stack s = (Inr (), s, evs @ [WarnDuplicate name])
         \<and> map_of (moduleFactories (fst (snd (defineModule second_factory explicitName stack s)))) name
             = Some first_factory
         \<and> (\<forall>n. require n name (fst (snd (defineModule second_factory explicitName stack s)))
                  = require n name s)"
proof -
  from reg have "name \<in> fst ` set (moduleFactories s)"
    by (metis domI dom_map_of_conv_image_fst)
  with named have "defineModule second_factory explicitName stack s
                     = (Inr (), s, evs @ [WarnDuplicate name])"
    by (simp add: defineModule_def)
  with reg show ?thesis by simp
qed

text \<open>A second file that detects the name \<^verbatim>\<open>calculator\<close> and registers another factory.\<close>

theorem defineModule_duplicate_witness:
  "defineModule mutating_factory None (define_stack ''calculator'') calculator_registry
     = (Inr (), calculator_registry,
        [LogDetecting, LogDetected ''calculator'', WarnDuplicate ''calculator''])
   \<and> map_of (moduleFactories calculator_registry) ''calculator'' = Some calculator_factory
   \<and> map_option (\<lambda>(r, s', evs). (r, heap s' ! 2))
       (require 1 ''calculator''
          (fst (snd (defineModule mutating_factory None (define_stack ''calculator'')
                       calculator_registry))))
     = Some (Inr (VRef 2),
             [(''add'', VFun ''add''), (''subtract'', VFun ''subtract''),
              (''multiply'', VFun ''multiply''), (''divide'', VFun ''divide'')])"
proof -
  have reg: "map_of (moduleFactories calculator_registry) ''calculator'' = Some calculator_factory"
    by code_simp
  have named: "resolve_name None (define_stack ''calculator'')
                 = (Inr ''calculator'', [LogDetecting, LogDetected ''calculator''])"
    by code_simp
  have out: "map_option (\<lambda>(r, s', evs). (r, heap s' ! 2))
               (require 1 ''calculator'' calculator_registry)
             = Some (Inr (VRef 2),
                     [(''add'', VFun ''add''), (''subtract'', VFun ''subtract''),
                      (''multiply'', VFun ''multiply''), (''divide'', VFun ''divide'')])"
    by code_simp
  from defineModule_duplicate [OF reg named, of mutating_factory] reg out
  show ?thesis by simp
qed

subsection \<open>Errors raised by \<^verbatim>\<open>require\<close> itself\<close>

text \<open>
  C10. A call raises the not-found error when the scan of its candidates selects no factory,
  and the circular dependency error when the scan selects a name that is in the loading set.
  In both cases the registry after the call is the registry before it, and no trace line is
  emitted.
\<close>

theorem require_own_throw_unchanged:
  "(scan_candidates s (candidates name) = NoMatch \<or> scan_candidates s (candidates name) = Found []
      \<longrightarrow> require n name s = Some (Inl (not_found_error s name), s, []))
   \<and> (\<forall>found. scan_candidates s (candidates name) = Found found \<and> found \<noteq> []
         \<and> found \<in> set (loadingModules s)
         \<longrightarrow> require n name s = Some (Inl (circular_error found), s, []))"
  by (auto simp: require.simps)

text \<open>
  A missing unit, and the calculator with its name put in the loading set by hand. (No sequence
  of calls produces the second registry: a name in the loading set has a module record, which
  the scan returns first.)
\<close>

theorem require_own_throw_unchanged_witness:
  "require 0 ''missing'' calculator_registry
     = Some (Inl (Error ''Module not found: missing. Tried: missing, missing.js. Available modules: CommonJS, calculator''),
             calculator_registry, [])
   \<and> require 0 ''calculator'' (calculator_registry\<lparr>loadingModules := [''calculator'']\<rparr>)
     = Some (Inl (Error ''Circular dependency detected: calculator''),
             calculator_registry\<lparr>loadingModules := [''calculator'']\<rparr>, [])"
proof -
  let ?s = "calculator_registry\<lparr>loadingModules := [''calculator'']\<rparr>"
  have a: "scan_candidates calculator_registry (candidates ''missing'') = NoMatch"
    by code_simp
  have b: "scan_candidates ?s (candidates ''calculator'') = Found ''calculator''"
    "''calculator'' \<noteq> []" "''calculator'' \<in> set (loadingModules ?s)"
    by code_simp+
  have c: "not_found_error calculator_registry ''missing''
             = Error ''Module not found: missing. Tried: missing, missing.js. Available modules: CommonJS, calculator''"
    "circular_error ''calculator'' = Error ''Circular dependency detected: calculator''"
    by code_simp+
  from require_own_throw_unchanged [of calculator_registry "''missing''" 0] a
  have "require 0 ''missing'' calculator_registry
          = Some (Inl (not_found_error calculator_registry ''missing''), calculator_registry, [])"
    by blast
  moreover from require_own_throw_unchanged [of ?s "''calculator''" 0] b
  have "require 0 ''calculator'' ?s = Some (Inl (circular_error ''calculator''), ?s, [])"
    by blast
  ultimately show ?thesis unfolding c by blast
qed

text \<open>
  An error that a call passes on from the factory it invoked is another matter: the factory of
  \<^verbatim>\<open>needy\<close> requires a missing unit, \<^verbatim>\<open>require('needy')\<close> ends with the not-found
  error of the inner call, and the module record of \<^verbatim>\<open>needy\<close> stays in \<^verbatim>\<open>modules\<close>
  and in the heap.
\<close>

lemma require_passes_on_not_found:
  "map_option (\<lambda>(r, s', evs). (r, modules s', heap s')) (require 1 ''needy'' needy_registry)
     = Some (Inl (Error ''Module not found: missing. Tried: missing, missing.js. Available modules: CommonJS, needy''),
             [(''needy'', 1)], [[], [(''exports'', VRef 0)]])
   \<and> modules needy_registry = [] \<and> heap needy_registry = []"
  by code_simp

subsection \<open>Names inherited from \<^verbatim>\<open>Object.prototype\<close>\<close>

lemma scan_NoMatch:
  assumes "\<forall>c\<in>set cs. map_of (modules s) c = None \<and> c \<notin> set object_prototype_keys
                    \<and> map_of (moduleFactories s) c = None"
  shows "scan_candidates s cs = NoMatch"
  using assms by (induction cs) auto

text \<open>
  When no candidate is an own key of \<^verbatim>\<open>modules\<close> or \<^verbatim>\<open>moduleFactories\<close> and none is an
  inherited key, the error names the request, the candidates and the registered names.
\<close>

lemma require_not_found_detail:
  assumes "\<forall>c\<in>set (candidates name). map_of (modules s) c = None
             \<and> c \<notin> set object_prototype_keys \<and> map_of (moduleFactories s) c = None"
  shows "require n name s
           = Some (Inl (Error (''Module not found: '' @ name
                               @ ''. Tried: '' @ join '', '' (candidates name)
                               @ ''. Available modules: ''
                               @ join '', '' (map fst (moduleFactories s)))), s, [])"
  using scan_NoMatch [OF assms] by (simp add: require.simps not_found_error_def)

text \<open>
  C8. The claim: a name none of whose candidates is registered or loaded raises the not-found
  error. For \<^verbatim>\<open>toString\<close> the code returns \<^verbatim>\<open>undefined\<close> instead:
  \<^verbatim>\<open>modules['toString']\<close> is the function inherited from \<^verbatim>\<open>Object.prototype\<close>, which
  is truthy, and its \<^verbatim>\<open>exports\<close> is \<^verbatim>\<open>undefined\<close>.
\<close>

theorem require_inherited_key_returns:
  "candidates ''toString'' = [''toString'', ''toString.js'']
   \<and> map_of (moduleFactories initial_registry) ''toString'' = None
   \<and> map_of (moduleFactories initial_registry) ''toString.js'' = None
   \<and> modules initial_registry = []
   \<and> require 1 ''toString'' initial_registry = Some (Inr VUndefined, initial_registry, [])"
  by code_simp

subsection \<open>The current module\<close>

text \<open>What the accessor returns, when it returns, is never a new record.\<close>

lemma current_lines_result:
  "current_lines s ls = Inr v \<Longrightarrow>
     (\<exists>name a. map_of (modules s) name = Some a \<and> v = VRef a)
     \<or> (\<exists>name. name \<in> set object_prototype_keys \<and> v = VFun (''Object.prototype.'' @ name))"
  by (induction ls)
     (auto simp: createModule_def module_or_create_def split: option.splits if_splits)

lemma getCurrentModule_existing:
  assumes "current_frame line = Some name" and "map_of (modules s) name = Some a"
  shows "current_lines s (line # ls) = Inr (VRef a)"
  using assms by (simp add: module_or_create_def)

text \<open>
  C3. The claim: \<^verbatim>\<open>__getCurrentModule__\<close> never raises. The code raises a
  \<^verbatim>\<open>ReferenceError\<close> whenever no module record exists under the recovered name, and
  whenever no line yields a name: both paths call \<^verbatim>\<open>__createModule__\<close>, which is not
  defined.
\<close>

theorem getCurrentModule_raises:
  "getCurrentModule (''Error'' @ [CHR 0x0A] @ ''    at calculator:5:3'') calculator_registry
     = Inl (ReferenceError ''__createModule__ is not defined'')
   \<and> getCurrentModule ''Error'' calculator_registry
     = Inl (ReferenceError ''__createModule__ is not defined'')"
  by code_simp

subsection \<open>Normalization of the requested name\<close>

lemma startsWith_append [simp]: "startsWith (p @ s) p"
  by (simp add: startsWith_def)

lemma endsWith_append [simp]: "endsWith (s @ p) p"
  by (simp add: endsWith_def)

lemma not_startsWith_dots:
  assumes "u \<noteq> []" "\<not> startsWith u ''.''"
  shows "\<not> startsWith (u @ v) ''../''" "\<not> startsWith (u @ v) ''..''"
    "\<not> startsWith u ''./''" "\<not> startsWith u ''../''" "\<not> startsWith u ''..''"
  using assms by (cases u; simp add: startsWith_def)+

lemma normalize_relative:
  assumes "u \<noteq> []" "\<not> startsWith u ''.''" "\<not> endsWith u ''.js''"
  shows "normalize (''./'' @ u @ ''.js'') = u" and "normalize u = u"
proof -
  have a: "startsWith (''./'' @ u @ ''.js'') ''./''"
    by (rule startsWith_append)
  have b: "drop 2 (''./'' @ u @ ''.js'') = u @ ''.js''"
    by simp
  have c: "endsWith (u @ ''.js'') ''.js''" "take (length (u @ ''.js'') - 3) (u @ ''.js'') = u"
    by simp_all
  note d = not_startsWith_dots(1,2) [OF assms(1,2), of "''.js''"]
  show "normalize (''./'' @ u @ ''.js'') = u"
    unfolding normalize_def Let_def by (simp only: a b c d if_True if_False)
  show "normalize u = u"
    using assms not_startsWith_dots(3-5) [OF assms(1,2)]
    by (simp add: normalize_def Let_def)
qed

lemma candidates_relative:
  assumes "u \<noteq> []" "\<not> startsWith u ''.''" "\<not> endsWith u ''.js''"
  shows "candidates (''./'' @ u @ ''.js'') = (''./'' @ u @ ''.js'') # candidates u"
proof -
  have "length (''./'' @ u @ ''.js'') \<noteq> length u"
    by simp
  then have "''./'' @ u @ ''.js'' \<noteq> u"
    by metis
  then have "u \<noteq> ''./'' @ u @ ''.js''"
    by metis
  then show ?thesis
    unfolding candidates_def normalize_relative [OF assms] Let_def by simp
qed


lemma relative_not_inherited: "''./'' @ u @ ''.js'' \<notin> set object_prototype_keys"
  by (simp add: object_prototype_keys_def)

text \<open>
  C4, as amended. The candidates are the name as given, the normalized name, the normalized
  name with \<^verbatim>\<open>.js\<close>, the last path segment of the normalized name and that segment with
  \<^verbatim>\<open>.js\<close>, all taken from the requested name. So for a registered unit \<open>u\<close> whose name
  is already normalized, with nothing registered or loaded under the literal key
  \<^verbatim>\<open>./u.js\<close>, that request has the candidates of \<open>u\<close> after itself, and
  \<^verbatim>\<open>require('./u.js')\<close> is \<^verbatim>\<open>require('u')\<close>: the same result, the same registry
  afterwards. The request \<^verbatim>\<open>util\<close> has the candidates \<^verbatim>\<open>util\<close> and \<^verbatim>\<open>util.js\<close> only.
\<close>

theorem require_relative_alias:
  assumes name: "u \<noteq> []" "\<not> startsWith u ''.''" "\<not> endsWith u ''.js''"
    and unit: "u \<in> fst ` set (moduleFactories s)"
    and free: "map_of (modules s) (''./'' @ u @ ''.js'') = None"
      "map_of (moduleFactories s) (''./'' @ u @ ''.js'') = None"
  shows "candidates (''./'' @ u @ ''.js'') = (''./'' @ u @ ''.js'') # candidates u
         \<and> require n (''./'' @ u @ ''.js'') s = require n u s
         \<and> candidates ''util'' = [''util'', ''util.js'']"
proof -
  have cs: "candidates (''./'' @ u @ ''.js'') = (''./'' @ u @ ''.js'') # candidates u"
    using name by (rule candidates_relative)
  have scan: "scan_candidates s (candidates (''./'' @ u @ ''.js'')) = scan_candidates s (candidates u)"
    unfolding cs using free relative_not_inherited [of u] by simp
  from unit obtain fac where "map_of (moduleFactories s) u = Some fac"
    by (metis domD dom_map_of_conv_image_fst)
  then have "scan_candidates s (candidates u) \<noteq> NoMatch"
    and "scan_candidates s (candidates u) \<noteq> Found []"
    using name(1) by (subst candidates_first, simp split: option.splits)+
  then have "require n (''./'' @ u @ ''.js'') s = require n u s"
    unfolding require.simps [of n "''./'' @ u @ ''.js''" s] require.simps [of n u s] scan
    by (cases "scan_candidates s (candidates u)") simp_all
  moreover have "candidates ''util'' = [''util'', ''util.js'']"
    by code_simp
  ultimately show ?thesis using cs by blast
qed

text \<open>The unit \<^verbatim>\<open>group/util\<close>.\<close>

theorem require_relative_alias_witness:
  "map_option fst (require 1 ''./group/util.js'' util_registry) = Some (Inr (VRef 0))
   \<and> map_option fst (require 1 ''group/util'' util_registry) = Some (Inr (VRef 0))
   \<and> candidates ''./group/util.js''
       = [''./group/util.js'', ''group/util'', ''group/util.js'', ''util'', ''util.js'']"
proof -
  have name: "''group/util'' \<noteq> []" "\<not> startsWith ''group/util'' ''.''"
    "\<not> endsWith ''group/util'' ''.js''"
    by code_simp+
  have unit: "''group/util'' \<in> fst ` set (moduleFactories util_registry)"
    by code_simp
  have free: "map_of (modules util_registry) (''./'' @ ''group/util'' @ ''.js'') = None"
    "map_of (moduleFactories util_registry) (''./'' @ ''group/util'' @ ''.js'') = None"
    by code_simp+
  have out: "map_option fst (require 1 ''group/util'' util_registry) = Some (Inr (VRef 0))"
    by code_simp
  have cs: "candidates ''group/util'' = [''group/util'', ''group/util.js'', ''util'', ''util.js'']"
    by code_simp
  from require_relative_alias [OF name unit free, of 1] out cs
  show ?thesis by simp
qed

text \<open>
  C4 as stated fails for the bare last segment: with \<^verbatim>\<open>group/util\<close> registered,
  \<^verbatim>\<open>require('group/util')\<close> returns its exports and \<^verbatim>\<open>require('util')\<close> raises the
  not-found error, because the last segment is taken from the request, never from the
  registered names.
\<close>

theorem require_basename_counterexample:
  "map fst (moduleFactories util_registry) = [''CommonJS'', ''group/util'']
   \<and> map_option fst (require 1 ''group/util'' util_registry) = Some (Inr (VRef 0))
   \<and> map_option fst (require 1 ''util'' util_registry)
       = Some (Inl (Error ''Module not found: util. Tried: util, util.js. Available modules: CommonJS, group/util''))"
  by code_simp

text \<open>
  A leading \<^verbatim>\<open>../\<close> is not removed: the first replacement takes its first dot, and what
  is left does not start with two dots.
\<close>

lemma require_parent_prefix:
  "normalize ''../group/util.js'' = ''./group/util''
   \<and> candidates ''../group/util.js''
       = [''../group/util.js'', ''./group/util'', ''./group/util.js'', ''util'', ''util.js'']"
  by code_simp

subsection \<open>Detection of the name\<close>

lemma first_usable_usable: "first_usable rs = Some n \<Longrightarrow> usable n"
  by (induction rs rule: first_usable.induct) (auto split: if_splits)

lemma detect_lines_None:
  "detect_lines ls = None \<longleftrightarrow>
     (\<forall>l\<in>set ls. internal_line (trim l) \<or> detect_frame (trim l) = None)"
  by (induction ls) (auto simp: Let_def split: option.splits)

lemma detect_lines_Some:
  "detect_lines ls = Some n \<Longrightarrow>
     usable n \<and> (\<exists>l\<in>set ls. \<not> internal_line (trim l) \<and> detect_frame (trim l) = Some n)"
  by (induction ls)
     (auto simp: Let_def detect_frame_def first_usable_usable split: option.splits if_splits)

lemma detectModuleName_usable:
  "detectModuleName stack = (Inr n, evs) \<Longrightarrow>
     usable n \<and> evs = [LogDetecting, LogDetected n]
     \<and> (\<exists>l\<in>set (split CHR 0x0A stack). \<not> internal_line (trim l) \<and> detect_frame (trim l) = Some n)"
  using detect_lines_Some [of "split CHR 0x0A stack" n]
  by (auto simp: detectModuleName_def split: option.splits)

text \<open>Each escape reads back as the character it stands for.\<close>

lemma hex_value_hex_digit: "hex_value (hex_digit n) = n mod 16"
proof -
  have "\<forall>k\<in>set [0..<16]. hex_value (hex_digit k) = k"
    by code_simp
  moreover have "n mod 16 \<in> set [0..<16]"
    by simp
  ultimately have "hex_value (hex_digit (n mod 16)) = n mod 16"
    by blast
  then show ?thesis by (simp add: hex_digit_def)
qed


lemma read_body_literal:
  assumes "c \<noteq> CHR 0x22" "c \<noteq> CHR 0x5C"
  shows "read_body (c # rest) = (case read_body rest of None \<Rightarrow> None | Some (s, r) \<Rightarrow> Some (c # s, r))"
  using assms by simp

lemma read_body_unicode:
  assumes "(of_char c :: nat) < 32"
  shows "read_body ([CHR 0x5C] @ ''u00'' @ [hex_digit (of_char c div 16), hex_digit (of_char c)] @ rest)
           = (case read_body rest of None \<Rightarrow> None | Some (s, r) \<Rightarrow> Some (c # s, r))"
proof -
  let ?n = "of_char c :: nat"
  have z: "hex_value CHR ''0'' = 0"
    by code_simp
  have "?n div 16 < 16"
    using assms by simp
  then have "hex_value (hex_digit (?n div 16)) * 16 + hex_value (hex_digit ?n) = ?n"
    by (simp add: hex_value_hex_digit)
  then have "char_of (((hex_value CHR ''0'' * 16 + hex_value CHR ''0'') * 16
                        + hex_value (hex_digit (?n div 16))) * 16 + hex_value (hex_digit ?n)) = c"
    by (simp add: z)
  then show ?thesis
    by (simp split: option.splits)
qed

lemma read_body_escape:
  "read_body (json_escape c @ rest)
     = (case read_body rest of None \<Rightarrow> None | Some (s, r) \<Rightarrow> Some (c # s, r))"
proof -
  consider (short) "c \<in> set [CHR 0x22, CHR 0x5C, CHR 0x08, CHR 0x0C, CHR 0x0A, CHR 0x0D, CHR 0x09]"
    | (unicode) "c \<notin> set [CHR 0x22, CHR 0x5C, CHR 0x08, CHR 0x0C, CHR 0x0A, CHR 0x0D, CHR 0x09]"
        "(of_char c :: nat) < 32"
    | (literal) "c \<notin> set [CHR 0x22, CHR 0x5C, CHR 0x08, CHR 0x0C, CHR 0x0A, CHR 0x0D, CHR 0x09]"
        "\<not> (of_char c :: nat) < 32"
    by blast
  then show ?thesis
  proof cases
    case short
    then show ?thesis
      by (auto simp: json_escape_def unescape_char_def split: option.splits)
  next
    case unicode
    then have "json_escape c
                 = [CHR 0x5C] @ ''u00'' @ [hex_digit (of_char c div 16), hex_digit (of_char c)]"
      by (simp add: json_escape_def)
    then show ?thesis
      using read_body_unicode [OF unicode(2), of rest] by simp
  next
    case literal
    then have "json_escape c = [c]" "c \<noteq> CHR 0x22" "c \<noteq> CHR 0x5C"
      by (simp_all add: json_escape_def)
    then show ?thesis
      using read_body_literal [of c rest] by simp
  qed
qed

lemma read_body_escaped:
  "read_body (concat (map json_escape s) @ CHR 0x22 # rest) = Some (s, rest)"
proof (induction s)
  case Nil
  then show ?case by simp
next
  case (Cons c s)
  have "read_body (json_escape c @ (concat (map json_escape s) @ CHR 0x22 # rest))
          = Some (c # s, rest)"
    unfolding read_body_escape Cons.IH by simp
  then show ?case by simp
qed

lemma read_json_string_roundtrip: "read_json_string (json_string s @ rest) = Some (s, rest)"
  using read_body_escaped [of s rest] by (simp add: read_json_string_def json_string_def)

lemma json_escape_plain:
  assumes "c \<noteq> CHR 0x22" "c \<noteq> CHR 0x5C" "(32::nat) \<le> of_char c"
  shows "json_escape c = [c]"
  using assms by (auto simp: json_escape_def)

lemma json_string_plain:
  assumes "\<forall>c\<in>set l. c \<noteq> CHR 0x22 \<and> c \<noteq> CHR 0x5C \<and> (32::nat) \<le> of_char c"
  shows "json_string l = [CHR 0x22] @ l @ [CHR 0x22]"
proof -
  from assms have "concat (map json_escape l) = l"
    by (induction l) (simp_all add: json_escape_plain)
  then show ?thesis by (simp add: json_string_def)
qed

lemma join_contains:
  "x \<in> set xs \<Longrightarrow> \<exists>pre post. join sep (map f xs) = pre @ f x @ post"
proof (induction xs)
  case Nil
  then show ?case by simp
next
  case (Cons a xs)
  show ?case
  proof (cases xs)
    case Nil
    with Cons.prems have "join sep (map f (a # xs)) = [] @ f x @ []" by simp
    then show ?thesis by blast
  next
    case (Cons b ys)
    show ?thesis
    proof (cases "x = a")
      case True
      with Cons have "join sep (map f (a # xs)) = [] @ f x @ (sep @ join sep (map f xs))"
        by simp
      then show ?thesis by blast
    next
      case False
      with Cons.prems Cons.IH obtain pre post where "join sep (map f xs) = pre @ f x @ post"
        by auto
      with Cons have "join sep (map f (a # xs)) = (f a @ sep @ pre) @ f x @ post"
        by simp
      then show ?thesis by blast
    qed
  qed
qed

lemma split_not_Nil [simp]: "split sep s \<noteq> []"
  by (induction s) (auto split: list.splits)

lemma detection_error_line:
  assumes "l \<in> set (split CHR 0x0A stack)"
  shows "\<exists>pre post. detection_error stack = Error (pre @ json_string l @ post)"
proof -
  let ?ls = "split CHR 0x0A stack"
  from join_contains [OF assms, of "'','' @ [CHR 0x0A]" "\<lambda>l. ''  '' @ ''  '' @ json_string l"]
  obtain pre post where
    j: "join ('','' @ [CHR 0x0A]) (map (\<lambda>l. ''  '' @ ''  '' @ json_string l) ?ls)
          = pre @ (''  '' @ ''  '' @ json_string l) @ post"
    by blast
  have "json_array ''  '' (map json_string ?ls)
          = (''['' @ [CHR 0x0A] @ pre @ ''    '') @ json_string l @ (post @ [CHR 0x0A] @ ''  '' @ '']'')"
    using j by (simp add: json_array_def comp_def)
  then obtain a b where arr: "json_array ''  '' (map json_string ?ls) = a @ json_string l @ b"
    by blast
  show ?thesis
    unfolding detection_error_def debug_info_json_def Let_def arr
    by (metis append.assoc)
qed

text \<open>
  C9. When every line of the stack is passed over or yields no usable name under any of the
  patterns, \<^verbatim>\<open>__detectModuleName__\<close> raises its error and the trace lines are those of a
  failed detection; no name is returned. The message carries the raw stack: after the fixed
  head up to the \<^verbatim>\<open>stackTrace\<close> key comes a JSON string literal that reads back as
  exactly the stack, and every line of the stack without a quote, a backslash or a control
  character stands in the message as it is, between quotes. The result is a function of the
  stack alone.
\<close>

theorem detectModuleName_fails:
  assumes "\<forall>l\<in>set (split CHR 0x0A stack). internal_line (trim l) \<or> detect_frame (trim l) = None"
  shows "detectModuleName stack = (Inl (detection_error stack), [LogDetecting, LogDetectFailed])
         \<and> (\<exists>rest rest'.
               detection_error stack
                 = Error (''Unable to detect module name from stack trace. Debug info: {''
                          @ [CHR 0x0A] @ ''  '' @ [CHR 0x22] @ ''stackTrace'' @ [CHR 0x22] @ '': ''
                          @ rest)
               \<and> read_json_string rest = Some (stack, rest'))
         \<and> (\<forall>l\<in>set (split CHR 0x0A stack).
               (\<forall>c\<in>set l. c \<noteq> CHR 0x22 \<and> c \<noteq> CHR 0x5C \<and> (32::nat) \<le> of_char c) \<longrightarrow>
               (\<exists>pre post. detection_error stack = Error (pre @ [CHR 0x22] @ l @ [CHR 0x22] @ post)))"
proof -
  from assms have "detect_lines (split CHR 0x0A stack) = None"
    by (simp add: detect_lines_None)
  then have a: "detectModuleName stack = (Inl (detection_error stack), [LogDetecting, LogDetectFailed])"
    by (simp add: detectModuleName_def)
  have key: "json_string ''stackTrace'' = [CHR 0x22] @ ''stackTrace'' @ [CHR 0x22]"
    by code_simp
  have "\<exists>rest'. detection_error stack
          = Error (''Unable to detect module name from stack trace. Debug info: {''
                   @ [CHR 0x0A] @ ''  '' @ [CHR 0x22] @ ''stackTrace'' @ [CHR 0x22] @ '': ''
                   @ (json_string stack @ rest'))"
    unfolding detection_error_def debug_info_json_def Let_def key by simp
  then have b: "\<exists>rest rest'.
               detection_error stack
                 = Error (''Unable to detect module name from stack trace. Debug info: {''
                          @ [CHR 0x0A] @ ''  '' @ [CHR 0x22] @ ''stackTrace'' @ [CHR 0x22] @ '': ''
                          @ rest)
               \<and> read_json_string rest = Some (stack, rest')"
    using read_json_string_roundtrip by blast
  have c: "\<exists>pre post. detection_error stack = Error (pre @ [CHR 0x22] @ l @ [CHR 0x22] @ post)"
    if "l \<in> set (split CHR 0x0A stack)"
      "\<forall>c\<in>set l. c \<noteq> CHR 0x22 \<and> c \<noteq> CHR 0x5C \<and> (32::nat) \<le> of_char c" for l
    using detection_error_line [OF that(1)] json_string_plain [OF that(2)] by simp
  from a b c show ?thesis by blast
qed

text \<open>
  A stack whose only frame is the file \<^verbatim>\<open>CommonJS\<close> itself, with the whole message
  written out; and the stack of the file's registration of itself, had it passed no explicit
  name, read back from its message.
\<close>

theorem detectModuleName_fails_witness:
  "detectModuleName (''Error'' @ [CHR 0x0A] @ ''    at CommonJS:387:3'')
     = (Inl (Error
          (
             ''Unable to detect module name from stack trace. Debug info: {'' @ [CHR 0x0A] @
             ''  '' @ [CHR 0x22] @ ''stackTrace'' @ [CHR 0x22] @ '': '' @ [CHR 0x22] @
             ''Error'' @ [CHR 0x5C] @ ''n    at CommonJS:387:3'' @ [CHR 0x22] @ '','' @
             [CHR 0x0A] @ ''  '' @ [CHR 0x22] @ ''lines'' @ [CHR 0x22] @ '': ['' @ [CHR 0x0A] @
             ''    '' @ [CHR 0x22] @ ''Error'' @ [CHR 0x22] @ '','' @ [CHR 0x0A] @ ''    '' @
             [CHR 0x22] @ ''    at CommonJS:387:3'' @ [CHR 0x22, CHR 0x0A] @ ''  ],'' @
             [CHR 0x0A] @ ''  '' @ [CHR 0x22] @ ''processedLines'' @ [CHR 0x22] @ '': ['' @
             [CHR 0x0A] @ ''    {'' @ [CHR 0x0A] @ ''      '' @ [CHR 0x22] @ ''index'' @
             [CHR 0x22] @ '': 0,'' @ [CHR 0x0A] @ ''      '' @ [CHR 0x22] @ ''content'' @
             [CHR 0x22] @ '': '' @ [CHR 0x22] @ ''Error'' @ [CHR 0x22] @ '','' @ [CHR 0x0A] @
             ''      '' @ [CHR 0x22] @ ''skipped'' @ [CHR 0x22] @ '': false'' @ [CHR 0x0A] @
             ''    },'' @ [CHR 0x0A] @ ''    {'' @ [CHR 0x0A] @ ''      '' @ [CHR 0x22] @
             ''index'' @ [CHR 0x22] @ '': 1,'' @ [CHR 0x0A] @ ''      '' @ [CHR 0x22] @
             ''content'' @ [CHR 0x22] @ '': '' @ [CHR 0x22] @ ''at CommonJS:387:3'' @
             [CHR 0x22] @ '','' @ [CHR 0x0A] @ ''      '' @ [CHR 0x22] @ ''skipped'' @
             [CHR 0x22] @ '': false'' @ [CHR 0x0A] @ ''    }'' @ [CHR 0x0A] @ ''  ]'' @
             [CHR 0x0A] @ ''}'')),
        [LogDetecting, LogDetectFailed])
   \<and> detectModuleName (define_stack ''CommonJS'')
       = (Inl (detection_error (define_stack ''CommonJS'')), [LogDetecting, LogDetectFailed])
   \<and> (case detection_error (define_stack ''CommonJS'') of
         Error msg \<Rightarrow> map_option fst (read_json_string (drop 77 msg))
       | _ \<Rightarrow> None) = Some (define_stack ''CommonJS'')"
proof -
  let ?short = "''Error'' @ [CHR 0x0A] @ ''    at CommonJS:387:3''"
  have h1: "\<forall>l\<in>set (split CHR 0x0A ?short). internal_line (trim l) \<or> detect_frame (trim l) = None"
    by code_simp
  have h2: "\<forall>l\<in>set (split CHR 0x0A (define_stack ''CommonJS'')).
              internal_line (trim l) \<or> detect_frame (trim l) = None"
    by code_simp
  have m: "detection_error ?short = Error
          (
             ''Unable to detect module name from stack trace. Debug info: {'' @ [CHR 0x0A] @
             ''  '' @ [CHR 0x22] @ ''stackTrace'' @ [CHR 0x22] @ '': '' @ [CHR 0x22] @
             ''Error'' @ [CHR 0x5C] @ ''n    at CommonJS:387:3'' @ [CHR 0x22] @ '','' @
             [CHR 0x0A] @ ''  '' @ [CHR 0x22] @ ''lines'' @ [CHR 0x22] @ '': ['' @ [CHR 0x0A] @
             ''    '' @ [CHR 0x22] @ ''Error'' @ [CHR 0x22] @ '','' @ [CHR 0x0A] @ ''    '' @
             [CHR 0x22] @ ''    at CommonJS:387:3'' @ [CHR 0x22, CHR 0x0A] @ ''  ],'' @
             [CHR 0x0A] @ ''  '' @ [CHR 0x22] @ ''processedLines'' @ [CHR 0x22] @ '': ['' @
             [CHR 0x0A] @ ''    {'' @ [CHR 0x0A] @ ''      '' @ [CHR 0x22] @ ''index'' @
             [CHR 0x22] @ '': 0,'' @ [CHR 0x0A] @ ''      '' @ [CHR 0x22] @ ''content'' @
             [CHR 0x22] @ '': '' @ [CHR 0x22] @ ''Error'' @ [CHR 0x22] @ '','' @ [CHR 0x0A] @
             ''      '' @ [CHR 0x22] @ ''skipped'' @ [CHR 0x22] @ '': false'' @ [CHR 0x0A] @
             ''    },'' @ [CHR 0x0A] @ ''    {'' @ [CHR 0x0A] @ ''      '' @ [CHR 0x22] @
             ''index'' @ [CHR 0x22] @ '': 1,'' @ [CHR 0x0A] @ ''      '' @ [CHR 0x22] @
             ''content'' @ [CHR 0x22] @ '': '' @ [CHR 0x22] @ ''at CommonJS:387:3'' @
             [CHR 0x22] @ '','' @ [CHR 0x0A] @ ''      '' @ [CHR 0x22] @ ''skipped'' @
             [CHR 0x22] @ '': false'' @ [CHR 0x0A] @ ''    }'' @ [CHR 0x0A] @ ''  ]'' @
             [CHR 0x0A] @ ''}'')"
    by code_simp
  have r: "(case detection_error (define_stack ''CommonJS'') of
              Error msg \<Rightarrow> map_option fst (read_json_string (drop 77 msg))
            | _ \<Rightarrow> None) = Some (define_stack ''CommonJS'')"
    by code_simp
  from detectModuleName_fails [OF h1]
  have "detectModuleName ?short = (Inl (detection_error ?short), [LogDetecting, LogDetectFailed])"
    by blast
  moreover from detectModuleName_fails [OF h2]
  have "detectModuleName (define_stack ''CommonJS'')
          = (Inl (detection_error (define_stack ''CommonJS'')), [LogDetecting, LogDetectFailed])"
    by blast
  ultimately show ?thesis
    unfolding m using r by blast
qed

end
